theory Spec2Isabelle
  imports Main "HOL-Library.Sublist"
begin

section \<open>The wrapper generator \<^verbatim>\<open>scripts/parse_bpf_h.py\<close>\<close>

text \<open>
  A shallow embedding of the generator. A Python \<^verbatim>\<open>str\<close> is a \<^typ>\<open>string\<close>; one
  \<^typ>\<open>char\<close> stands for one code point below 256, and the character classes of Python
  (\<^verbatim>\<open>str.isspace\<close>, the line boundaries of \<^verbatim>\<open>str.splitlines\<close>) are the ones Python has
  on that range. An uncaught exception is the \<open>Inl\<close> side of a sum. The command line,
  the configuration file and the header file are read outside the model: \<open>main\<close> takes
  the list \<^verbatim>\<open>config["exceptions"]\<close> and the text of the header.
\<close>

datatype error = IndexError | KeyError | ValueError

subsection \<open>The string methods the script calls\<close>

text \<open>\<^verbatim>\<open>s.find(sub)\<close>, here \<open>find_str\<close>: the lowest index at which \<open>sub\<close> occurs in
  \<open>s\<close>, or \<open>-1\<close>. \<open>find_from s sub i\<close> searches the rest \<open>s\<close> of a string whose first
  \<open>i\<close> characters have been passed.\<close>

fun find_from :: "string \<Rightarrow> string \<Rightarrow> nat \<Rightarrow> int" where
  "find_from [] sub i = (if sub = [] then int i else - 1)"
| "find_from (c # cs) sub i =
     (if prefix sub (c # cs) then int i else find_from cs sub (Suc i))"

definition find_str :: "string \<Rightarrow> string \<Rightarrow> int" where
  "find_str s sub = find_from s sub 0"

text \<open>\<^verbatim>\<open>s[a:b]\<close> for integers \<open>a\<close> and \<open>b\<close>: a negative index counts from the end, and
  both are clamped to the length.\<close>

definition slice_index :: "int \<Rightarrow> nat \<Rightarrow> nat" where
  "slice_index i n = (if i < 0 then nat (max 0 (i + int n)) else min (nat i) n)"

definition slice :: "'a list \<Rightarrow> int \<Rightarrow> int \<Rightarrow> 'a list" where
  "slice s a b =
     (let lo = slice_index a (length s); hi = slice_index b (length s)
      in take (hi - lo) (drop lo s))"

text \<open>\<^verbatim>\<open>c.isspace()\<close> on the code points below 256: tab, line feed, vertical tab, form
  feed, carriage return, the four separators \<open>0x1C\<close> to \<open>0x1F\<close>, space, \<open>0x85\<close> and
  \<open>0xA0\<close>.\<close>

definition isspace :: "char \<Rightarrow> bool" where
  "isspace c = (c \<in> set [CHR 0x09, CHR 0x0A, CHR 0x0B, CHR 0x0C, CHR 0x0D,
                           CHR 0x1C, CHR 0x1D, CHR 0x1E, CHR 0x1F, CHR 0x20,
                           CHR 0x85, CHR 0xA0])"

text \<open>\<^verbatim>\<open>s.split()\<close>: the maximal runs of characters that are not whitespace.
  \<open>split_from s cur\<close> has read the characters \<open>cur\<close> of the current run.\<close>

fun split_from :: "string \<Rightarrow> string \<Rightarrow> string list" where
  "split_from [] cur = (if cur = [] then [] else [cur])"
| "split_from (c # cs) cur =
     (if isspace c then (if cur = [] then split_from cs [] else cur # split_from cs [])
      else split_from cs (cur @ [c]))"

definition split :: "string \<Rightarrow> string list" where
  "split s = split_from s []"

text \<open>\<^verbatim>\<open>s.split(sep)\<close> for a separator of one character (the script's only separator
  is the comma): the pieces between the separators, empty pieces kept, so that the
  empty string gives one empty piece.\<close>

fun split_sep :: "string \<Rightarrow> char \<Rightarrow> string list" where
  "split_sep [] sep = [[]]"
| "split_sep (c # cs) sep =
     (if c = sep then [] # split_sep cs sep
      else (case split_sep cs sep of
              [] \<Rightarrow> [[c]]
            | piece # pieces \<Rightarrow> (c # piece) # pieces))"

text \<open>\<^verbatim>\<open>s.lstrip(chars)\<close>: \<open>s\<close> without its leading characters that are in \<open>chars\<close>.\<close>

definition lstrip :: "string \<Rightarrow> string \<Rightarrow> string" where
  "lstrip s chars = dropWhile (\<lambda>c. c \<in> set chars) s"

text \<open>\<^verbatim>\<open>sep.join(xs)\<close>.\<close>

fun join :: "string \<Rightarrow> string list \<Rightarrow> string" where
  "join sep [] = []"
| "join sep [x] = x"
| "join sep (x # y # ys) = x @ sep @ join sep (y # ys)"

text \<open>\<^verbatim>\<open>xs[-1]\<close>: the last element; \<^verbatim>\<open>IndexError\<close> on the empty list.\<close>

definition last_item :: "'a list \<Rightarrow> error + 'a" where
  "last_item xs = (if xs = [] then Inl IndexError else Inr (last xs))"

subsection \<open>The class \<^verbatim>\<open>ExportedFunction\<close>\<close>

record ExportedFunction =
  func_def :: string
  func_name :: string
  func_return :: string
  func_args :: string
  processed_args :: string

text \<open>The loop of the constructor over \<^verbatim>\<open>self.func_args.split(",")\<close>: each piece gives
  its last whitespace-separated token without leading stars; a piece with no token
  raises \<^verbatim>\<open>IndexError\<close>. The result is the list \<^verbatim>\<open>res\<close>.\<close>

fun res_loop :: "string list \<Rightarrow> error + string list" where
  "res_loop [] = Inr []"
| "res_loop (token # tokens) =
     (case last_item (split token) of
        Inl e \<Rightarrow> Inl e
      | Inr t \<Rightarrow> (case res_loop tokens of
                   Inl e \<Rightarrow> Inl e
                 | Inr res \<Rightarrow> Inr (lstrip t ''*'' # res)))"

text \<open>\<^verbatim>\<open>ExportedFunction.__init__\<close>. There is no check of \<open>left\<close> and \<open>right\<close>: when a
  parenthesis is missing, \<open>find_str\<close> gives \<open>-1\<close> and the slices are taken with it.\<close>

definition init :: "string \<Rightarrow> error + ExportedFunction" where
  "init fd =
     (let left = find_str fd ''('';
          right = find_str fd '')'';
          tokens = split (slice fd 0 left)
      in case last_item tokens of
           Inl e \<Rightarrow> Inl e
         | Inr name \<Rightarrow>
             (let ret = join '' '' (slice tokens 1 (- 1));
                  args = slice fd (left + 1) right
              in case res_loop (split_sep args CHR '','') of
                   Inl e \<Rightarrow> Inl e
                 | Inr res \<Rightarrow>
                     Inr \<lparr>func_def = fd, func_name = name, func_return = ret,
                          func_args = args, processed_args = join '', '' res\<rparr>))"

subsection \<open>The templates and \<^verbatim>\<open>str.format\<close>\<close>

definition PREAMBLE :: string where
  \<open>PREAMBLE =
     ''#include <bpf/bpf.h>\<newline>'' @
     ''#include <dlfcn.h>\<newline>'' @
     ''#include <pthread.h>\<newline>'' @
     ''\<newline>''\<close>

definition INIT :: string where
  \<open>INIT =
     ''\<newline>'' @
     ''static bool init_done = false;\<newline>'' @
     ''static void* default_rtld = NULL;\<newline>'' @
     ''static pthread_mutex_t init_lock = PTHREAD_MUTEX_INITIALIZER;\<newline>'' @
     ''\<newline>'' @
     ''static void inline init_dl(void)\<newline>'' @
     ''{\<newline>'' @
     ''    pthread_mutex_lock(&init_lock);\<newline>'' @
     ''    if (!init_done) {\<newline>'' @
     ''        default_rtld = dlopen("libbpf.so", RTLD_LOCAL);\<newline>'' @
     ''        init_done = true;\<newline>'' @
     ''    }\<newline>'' @
     ''    pthread_mutex_unlock(&init_lock);\<newline>'' @
     ''}\<newline>''\<close>

definition DECLARE_TEMPLATE :: string where
  \<open>DECLARE_TEMPLATE =
     ''\<newline>'' @
     ''static  {func_return} (*real_{func_name})({func_args}) = NULL;\<newline>''\<close>

definition INVOKE_NON_VOID_TEMPLATE :: string where
  \<open>INVOKE_NON_VOID_TEMPLATE =
     ''\<newline>'' @
     ''{func_return} {func_name}({func_args})\<newline>'' @
     ''{{\<newline>'' @
     ''    init_dl();\<newline>'' @
     ''    if (!real_{func_name}) {{\<newline>'' @
     ''        real_{func_name} = dlsym(default_rtld, "{func_name}");\<newline>'' @
     ''    }}\<newline>'' @
     ''    return real_{func_name}({processed_args});\<newline>'' @
     ''}}\<newline>'' @
     ''\<newline>''\<close>

definition INVOKE_VOID_TEMPLATE :: string where
  \<open>INVOKE_VOID_TEMPLATE =
     ''\<newline>'' @
     ''{func_return} {func_name}({func_args})\<newline>'' @
     ''{{\<newline>'' @
     ''    init_dl();\<newline>'' @
     ''    if (!real_{func_name}) {{\<newline>'' @
     ''        real_{func_name} = dlsym(default_rtld, "{func_name}");\<newline>'' @
     ''    }}\<newline>'' @
     ''    real_{func_name}({processed_args});\<newline>'' @
     ''}}\<newline>'' @
     ''\<newline>''\<close>

text \<open>\<^verbatim>\<open>template.format(**kwargs)\<close> for replacement fields that are plain keyword names,
  the only fields the templates have: a doubled brace gives one brace, \<^verbatim>\<open>{name}\<close> gives
  the keyword argument \<open>name\<close> (\<^verbatim>\<open>KeyError\<close> when there is none), and a single brace
  that opens no field or is never closed raises \<^verbatim>\<open>ValueError\<close>. The second argument is
  the field name read so far, when inside a field.\<close>

fun format_from :: "string \<Rightarrow> string option \<Rightarrow> (string \<times> string) list \<Rightarrow> error + string" where
  "format_from [] field kwargs = (case field of None \<Rightarrow> Inr [] | Some name \<Rightarrow> Inl ValueError)"
| "format_from (c # cs) (Some name) kwargs =
     (if c = CHR ''}'' then
        (case map_of kwargs name of
           None \<Rightarrow> Inl KeyError
         | Some v \<Rightarrow> (case format_from cs None kwargs of
                        Inl e \<Rightarrow> Inl e
                      | Inr out \<Rightarrow> Inr (v @ out)))
      else format_from cs (Some (name @ [c])) kwargs)"
| "format_from (c # cs) None kwargs =
     (if c = CHR ''{'' then
        (case cs of
           [] \<Rightarrow> Inl ValueError
         | c' # cs' \<Rightarrow>
             if c' = CHR ''{'' then
               (case format_from cs' None kwargs of
                  Inl e \<Rightarrow> Inl e
                | Inr out \<Rightarrow> Inr (CHR ''{'' # out))
             else format_from cs (Some []) kwargs)
      else if c = CHR ''}'' then
        (case cs of
           [] \<Rightarrow> Inl ValueError
         | c' # cs' \<Rightarrow>
             if c' = CHR ''}'' then
               (case format_from cs' None kwargs of
                  Inl e \<Rightarrow> Inl e
                | Inr out \<Rightarrow> Inr (CHR ''}'' # out))
             else Inl ValueError)
      else (case format_from cs None kwargs of
              Inl e \<Rightarrow> Inl e
            | Inr out \<Rightarrow> Inr (c # out)))"

definition format :: "string \<Rightarrow> (string \<times> string) list \<Rightarrow> error + string" where
  "format template kwargs = format_from template None kwargs"

text \<open>\<^verbatim>\<open>ExportedFunction.dump_wrapper\<close> and \<^verbatim>\<open>ExportedFunction.dump_declaration\<close>.\<close>

definition dump_wrapper :: "ExportedFunction \<Rightarrow> error + string" where
  "dump_wrapper self =
     (if func_return self = ''void'' then
        format INVOKE_VOID_TEMPLATE
          [(''func_return'', func_return self), (''func_name'', func_name self),
           (''func_args'', func_args self), (''processed_args'', processed_args self)]
      else
        format INVOKE_NON_VOID_TEMPLATE
          [(''func_return'', func_return self), (''func_name'', func_name self),
           (''func_args'', func_args self), (''processed_args'', processed_args self)])"

definition dump_declaration :: "ExportedFunction \<Rightarrow> error + string" where
  "dump_declaration self =
     format DECLARE_TEMPLATE
       [(''func_return'', func_return self), (''func_name'', func_name self),
        (''func_args'', func_args self)]"

subsection \<open>The function \<^verbatim>\<open>main\<close>\<close>

text \<open>\<^verbatim>\<open>s.splitlines()\<close>: the lines of \<open>s\<close> without their line boundaries. The boundaries
  below 256 are line feed, vertical tab, form feed, carriage return (with a line feed
  after it, one boundary), \<open>0x1C\<close>, \<open>0x1D\<close>, \<open>0x1E\<close> and \<open>0x85\<close>; no line is added after
  a final boundary.\<close>

definition is_linebreak :: "char \<Rightarrow> bool" where
  "is_linebreak c = (c \<in> set [CHR 0x0A, CHR 0x0B, CHR 0x0C, CHR 0x0D,
                               CHR 0x1C, CHR 0x1D, CHR 0x1E, CHR 0x85])"

fun splitlines_from :: "string \<Rightarrow> string \<Rightarrow> string list" where
  "splitlines_from [] cur = (if cur = [] then [] else [cur])"
| "splitlines_from (c # cs) cur =
     (if is_linebreak c then
        cur # (case cs of
                 [] \<Rightarrow> []
               | c' # cs' \<Rightarrow>
                   if c = CHR 0x0D \<and> c' = CHR 0x0A then splitlines_from cs' []
                   else splitlines_from cs [])
      else splitlines_from cs (cur @ [c]))"

definition splitlines :: "string \<Rightarrow> string list" where
  "splitlines s = splitlines_from s []"

text \<open>The local variables of the loop of \<^verbatim>\<open>main\<close>: \<open>start\<close>, the accumulated text
  (\<^verbatim>\<open>func_def\<close> in the script, \<open>acc\<close> here, as the class has a field of that name) and
  \<open>defs\<close>.\<close>

record loop_state =
  start :: bool
  acc :: string
  defs :: "ExportedFunction list"

text \<open>The loop over \<^verbatim>\<open>config["exceptions"]\<close>, entered with \<open>start\<close> true: the value of
  \<open>start\<close> after it. The condition of its \<^verbatim>\<open>if\<close> is the integer \<open>func_def.find(skip)\<close>
  itself, which Python takes as true when it is not zero.\<close>

fun skip_loop :: "string list \<Rightarrow> string \<Rightarrow> bool" where
  "skip_loop [] fd = True"
| "skip_loop (skip # rest) fd = (if find_str fd skip \<noteq> 0 then False else skip_loop rest fd)"

text \<open>One pass of the loop over the lines of the header.\<close>

definition loop_body :: "string list \<Rightarrow> loop_state \<Rightarrow> string \<Rightarrow> error + loop_state" where
  "loop_body exceptions st line =
     (let start1 = (if find_str line ''LIBBPF_API'' \<noteq> - 1 then True else start st);
          acc1 = (if start1 then acc st @ line @ ''\<newline>'' else acc st)
      in if find_str line '';'' \<noteq> - 1 \<and> start1 then
           (if skip_loop exceptions acc1 then
              (case init acc1 of
                 Inl e \<Rightarrow> Inl e
               | Inr f \<Rightarrow> Inr \<lparr>start = False, acc = [], defs = defs st @ [f]\<rparr>)
            else Inr \<lparr>start = False, acc = [], defs = defs st\<rparr>)
         else Inr \<lparr>start = start1, acc = acc1, defs = defs st\<rparr>)"

fun main_loop :: "string list \<Rightarrow> string list \<Rightarrow> loop_state \<Rightarrow> error + loop_state" where
  "main_loop exceptions [] st = Inr st"
| "main_loop exceptions (line # lines) st =
     (case loop_body exceptions st line of
        Inl e \<Rightarrow> Inl e
      | Inr st' \<Rightarrow> main_loop exceptions lines st')"

definition initial_state :: loop_state where
  "initial_state = \<lparr>start = False, acc = [], defs = []\<rparr>"

text \<open>\<^verbatim>\<open>print(s)\<close> appends \<open>s\<close> and a line feed to the standard output \<open>out\<close>.\<close>

definition print :: "string \<Rightarrow> string \<Rightarrow> string" where
  "print out s = out @ s @ ''\<newline>''"

text \<open>The two printing loops, \<^verbatim>\<open>for func_def in defs: print(func_def.dump())\<close>.\<close>

fun print_loop ::
  "(ExportedFunction \<Rightarrow> error + string) \<Rightarrow> ExportedFunction list \<Rightarrow> string \<Rightarrow> error + string" where
  "print_loop dump [] out = Inr out"
| "print_loop dump (f # fs) out =
     (case dump f of
        Inl e \<Rightarrow> Inl e
      | Inr s \<Rightarrow> print_loop dump fs (print out s))"

text \<open>\<^verbatim>\<open>main\<close>, from the list of exceptions of the configuration and the lines of the
  header: the standard output of a run that ends, or the exception that ends it.\<close>

definition main_lines :: "string list \<Rightarrow> string list \<Rightarrow> error + string" where
  "main_lines exceptions lines =
     (case main_loop exceptions lines initial_state of
        Inl e \<Rightarrow> Inl e
      | Inr st \<Rightarrow>
          (case print_loop dump_declaration (defs st) (print (print [] PREAMBLE) INIT) of
             Inl e \<Rightarrow> Inl e
           | Inr out \<Rightarrow> print_loop dump_wrapper (defs st) out))"

text \<open>\<^verbatim>\<open>main\<close> from the text that \<^verbatim>\<open>bpfh.read()\<close> returns.\<close>

definition main :: "string list \<Rightarrow> string \<Rightarrow> error + string" where
  "main exceptions header = main_lines exceptions (splitlines header)"

subsection \<open>The parts of a rendered wrapper\<close>

text \<open>The text of a rendered wrapper before its last statement, and the call that the
  last statement makes. Both are used to state what \<open>dump_wrapper\<close> renders.\<close>

definition wrapper_prologue :: "ExportedFunction \<Rightarrow> string" where
  \<open>wrapper_prologue self =
     ''\<newline>'' @
     func_return self @ '' '' @ func_name self @ ''('' @ func_args self @ '')\<newline>'' @
     ''{\<newline>'' @
     ''    init_dl();\<newline>'' @
     ''    if (!real_'' @ func_name self @ '') {\<newline>'' @
     ''        real_'' @ func_name self @ '' = dlsym(default_rtld, "'' @ func_name self @ ''");\<newline>'' @
     ''    }\<newline>''\<close>

definition forwarded_call :: "ExportedFunction \<Rightarrow> string" where
  "forwarded_call self = ''real_'' @ func_name self @ ''('' @ processed_args self @ '')''"

text \<open>The texts that \<open>dump_declaration\<close> and \<open>dump_wrapper\<close> render (lemmas
  \<open>dump_declaration_text\<close> and \<open>dump_wrapper_text\<close>), and the text that one printing
  loop adds to the standard output.\<close>

definition declaration_text :: "ExportedFunction \<Rightarrow> string" where
  "declaration_text self =
     ''\<newline>'' @
     ''static  '' @ func_return self @ '' (*real_'' @ func_name self @ '')('' @
     func_args self @ '') = NULL;\<newline>''"

definition wrapper_text :: "ExportedFunction \<Rightarrow> string" where
  "wrapper_text self =
     wrapper_prologue self @
     ''    '' @ (if func_return self = ''void'' then [] else ''return '') @
     forwarded_call self @ '';\<newline>'' @
     ''}\<newline>'' @
     ''\<newline>''"

definition printed :: "(ExportedFunction \<Rightarrow> string) \<Rightarrow> ExportedFunction list \<Rightarrow> string" where
  "printed text fs = concat (map (\<lambda>f. text f @ ''\<newline>'') fs)"

subsection \<open>The declarations of a header\<close>

text \<open>The lines of a header in the terms of the loop. \<open>after_marker ls\<close> are the lines
  from the first one with the marker on. Lines are the lines of one declaration when,
  from the marker on, the last line is the only one with the terminator; the text the
  loop then accumulates is \<open>raw_declaration\<close>. Lines are unterminated when no line from
  the marker on has the terminator. Every list of lines is a sequence of declarations
  followed by unterminated lines (lemma \<open>header_decomposition\<close>).\<close>

definition after_marker :: "string list \<Rightarrow> string list" where
  "after_marker ls = dropWhile (\<lambda>l. find_str l ''LIBBPF_API'' = - 1) ls"


definition declaration_lines :: "string list \<Rightarrow> bool" where
  "declaration_lines b =
     (after_marker b \<noteq> [] \<and>
      (\<forall>l\<in>set (butlast (after_marker b)). find_str l '';'' = - 1) \<and>
      find_str (last (after_marker b)) '';'' \<noteq> - 1)"

definition unterminated_lines :: "string list \<Rightarrow> bool" where
  "unterminated_lines ls = (\<forall>l\<in>set (after_marker ls). find_str l '';'' = - 1)"


subsection \<open>Tokens of a declaration\<close>

text \<open>A token as the declarations of the header have them: not empty, without whitespace,
  parentheses or commas.\<close>

definition plain_token :: "string \<Rightarrow> bool" where
  "plain_token t = (t \<noteq> [] \<and> (\<forall>c\<in>set t. \<not> isspace c \<and> c \<notin> set ''(),''))"

section \<open>Rendering\<close>

lemma dump_declaration_text: "dump_declaration self = Inr (declaration_text self)"
  by (simp add: dump_declaration_def format_def DECLARE_TEMPLATE_def declaration_text_def)

lemma dump_wrapper_void:
  "func_return self = ''void'' \<Longrightarrow>
   dump_wrapper self =
     Inr (wrapper_prologue self @ ''    '' @ forwarded_call self @ '';\<newline>}\<newline>\<newline>'')"
  by (simp add: dump_wrapper_def format_def INVOKE_VOID_TEMPLATE_def
      wrapper_prologue_def forwarded_call_def)

lemma dump_wrapper_non_void:
  "func_return self \<noteq> ''void'' \<Longrightarrow>
   dump_wrapper self =
     Inr (wrapper_prologue self @ ''    return '' @ forwarded_call self @ '';\<newline>}\<newline>\<newline>'')"
  by (simp add: dump_wrapper_def format_def INVOKE_NON_VOID_TEMPLATE_def
      wrapper_prologue_def forwarded_call_def)

lemma dump_wrapper_text: "dump_wrapper self = Inr (wrapper_text self)"
  by (cases "func_return self = ''void''")
    (simp_all add: dump_wrapper_void dump_wrapper_non_void wrapper_text_def)

text \<open>
  Claim C6. The wrapper that \<open>dump_wrapper\<close> renders ends with one statement that makes the
  forwarded call. That statement is \<^verbatim>\<open>return\<close> of the call unless the return type is
  exactly \<^verbatim>\<open>void\<close>, and the bare call (its result discarded, nothing returned) when it is.
  Everything else of the two renderings is the same text.
\<close>

theorem dump_wrapper_returns_unless_void:
  "dump_wrapper self =
     Inr (wrapper_prologue self @
          ''    '' @ (if func_return self = ''void'' then [] else ''return '') @
          forwarded_call self @ '';\<newline>}\<newline>\<newline>'')"
  by (cases "func_return self = ''void''") (simp_all add: dump_wrapper_void dump_wrapper_non_void)

section \<open>The test of the exceptions\<close>

text \<open>
  Claim C1. With the exceptions \<^verbatim>\<open>["bpf_skip"]\<close>, a declaration that does not contain
  \<^verbatim>\<open>bpf_skip\<close> is discarded (the output is the preamble and the helper only), and with
  the exceptions \<^verbatim>\<open>["LIBBPF_API"]\<close> a declaration that contains \<^verbatim>\<open>LIBBPF_API\<close> is
  kept: the object is constructed and a wrapper printed for it.
\<close>

theorem exceptions_test_is_inverted:
  "main [''bpf_skip''] ''LIBBPF_API int bpf_f(int x);\<newline>'' =
     Inr (PREAMBLE @ ''\<newline>'' @ INIT @ ''\<newline>'') \<and>
   main_loop [''LIBBPF_API''] (splitlines ''LIBBPF_API int bpf_f(int x);\<newline>'') initial_state =
     Inr \<lparr>start = False, acc = [],
          defs = [\<lparr>func_def = ''LIBBPF_API int bpf_f(int x);\<newline>'', func_name = ''bpf_f'',
                   func_return = ''int'', func_args = ''int x'', processed_args = ''x''\<rparr>]\<rparr>"
  by code_simp



lemma find_from_absent_iff: "find_from s sub i = - 1 \<longleftrightarrow> \<not> sublist sub s"
proof (induction s arbitrary: i)
  case Nil
  then show ?case by simp
next
  case (Cons c cs)
  show ?case
  proof (cases "prefix sub (c # cs)")
    case True
    then show ?thesis by auto
  next
    case False
    then show ?thesis using Cons [of "Suc i"] by (simp add: sublist_Cons_right)
  qed
qed

lemma find_absent_iff: "find_str s sub = - 1 \<longleftrightarrow> \<not> sublist sub s"
  by (simp add: find_str_def find_from_absent_iff)




section \<open>The loop over the lines\<close>

lemma main_loop_append:
  "main_loop ex (xs @ ys) st =
     (case main_loop ex xs st of Inl e \<Rightarrow> Inl e | Inr st' \<Rightarrow> main_loop ex ys st')"
  by (induction xs arbitrary: st) (auto split: sum.splits)

lemma print_loop_text:
  "(\<And>f. dump f = Inr (text f)) \<Longrightarrow> print_loop dump fs out = Inr (out @ printed text fs)"
  by (induction fs arbitrary: out) (simp_all add: printed_def print_def)

lemma main_lines_output:
  "main_lines ex lines =
     (case main_loop ex lines initial_state of
        Inl e \<Rightarrow> Inl e
      | Inr st \<Rightarrow>
          Inr (PREAMBLE @ ''\<newline>'' @ INIT @ ''\<newline>'' @
               printed declaration_text (defs st) @ printed wrapper_text (defs st)))"
  by (simp add: main_lines_def print_def
      print_loop_text [of dump_declaration declaration_text, OF dump_declaration_text]
      print_loop_text [of dump_wrapper wrapper_text, OF dump_wrapper_text]
      split: sum.splits)

text \<open>The loop only appends to \<open>defs\<close>: what it adds does not depend on what \<open>defs\<close>
  holds already.\<close>

lemma loop_body_defs:
  "loop_body ex st line =
     (case loop_body ex (st\<lparr>defs := []\<rparr>) line of
        Inl e \<Rightarrow> Inl e
      | Inr st' \<Rightarrow> Inr (st'\<lparr>defs := defs st @ defs st'\<rparr>))"
  by (simp add: loop_body_def Let_def split: sum.splits)

lemma main_loop_defs:
  "main_loop ex ls st =
     (case main_loop ex ls (st\<lparr>defs := []\<rparr>) of
        Inl e \<Rightarrow> Inl e
      | Inr st' \<Rightarrow> Inr (st'\<lparr>defs := defs st @ defs st'\<rparr>))"
proof (induction ls arbitrary: st)
  case Nil
  then show ?case by simp
next
  case (Cons l ls)
  show ?case
  proof (cases "loop_body ex (st\<lparr>defs := []\<rparr>) l")
    case (Inl e)
    then show ?thesis using loop_body_defs [of ex st l] by simp
  next
    case (Inr st1)
    then have b: "loop_body ex st l = Inr (st1\<lparr>defs := defs st @ defs st1\<rparr>)"
      using loop_body_defs [of ex st l] by simp
    show ?thesis
      using Cons [of "st1\<lparr>defs := defs st @ defs st1\<rparr>"] Cons [of st1] Inr b
      by (simp split: sum.splits)
  qed
qed

lemma pending_loop:
  "\<forall>l\<in>set ls. find_str l '';'' = - 1 \<Longrightarrow> start st \<Longrightarrow>
   main_loop ex ls st =
     Inr \<lparr>start = True, acc = acc st @ concat (map (\<lambda>l. l @ ''\<newline>'') ls), defs = defs st\<rparr>"
proof (induction ls arbitrary: st)
  case Nil
  then show ?case by simp
next
  case (Cons l ls)
  then have b: "loop_body ex st l = Inr \<lparr>start = True, acc = acc st @ l @ ''\<newline>'', defs = defs st\<rparr>"
    by (simp add: loop_body_def Let_def)
  from Cons.prems have "\<forall>l\<in>set ls. find_str l '';'' = - 1" by simp
  from Cons.IH [OF this, of "\<lparr>start = True, acc = acc st @ l @ ''\<newline>'', defs = defs st\<rparr>"] b
  show ?case by simp
qed

text \<open>
  Claim C8. When the header ends with a line that contains the marker and lines after it,
  none of which contains the terminator, the run is the run on the header without these
  lines: the same output or the same exception. The loop ends with the text of these lines
  in the accumulator and with the declarations it had before them.
\<close>

theorem unterminated_declaration_dropped:
  assumes "find_str m ''LIBBPF_API'' \<noteq> - 1"
    and "\<forall>l\<in>set (m # rest). find_str l '';'' = - 1"
  shows "main_lines ex (xs @ m # rest) = main_lines ex xs \<and>
         main_loop ex (xs @ m # rest) initial_state =
           (case main_loop ex xs initial_state of
              Inl e \<Rightarrow> Inl e
            | Inr st \<Rightarrow>
                Inr \<lparr>start = True,
                     acc = acc st @ concat (map (\<lambda>l. l @ ''\<newline>'') (m # rest)),
                     defs = defs st\<rparr>)"
proof -
  have step: "main_loop ex (m # rest) st =
      Inr \<lparr>start = True, acc = acc st @ concat (map (\<lambda>l. l @ ''\<newline>'') (m # rest)),
           defs = defs st\<rparr>" for st
  proof -
    from assms have b: "loop_body ex st m = Inr \<lparr>start = True, acc = acc st @ m @ ''\<newline>'', defs = defs st\<rparr>"
      by (simp add: loop_body_def Let_def)
    from assms have "\<forall>l\<in>set rest. find_str l '';'' = - 1" by simp
    from pending_loop [OF this, of "\<lparr>start = True, acc = acc st @ m @ ''\<newline>'', defs = defs st\<rparr>" ex] b
    show ?thesis by simp
  qed
  have loop: "main_loop ex (xs @ m # rest) initial_state =
           (case main_loop ex xs initial_state of
              Inl e \<Rightarrow> Inl e
            | Inr st \<Rightarrow>
                Inr \<lparr>start = True,
                     acc = acc st @ concat (map (\<lambda>l. l @ ''\<newline>'') (m # rest)),
                     defs = defs st\<rparr>)"
  proof (cases "main_loop ex xs initial_state")
    case (Inl e)
    then show ?thesis by (simp add: main_loop_append)
  next
    case (Inr st0)
    with step [of st0] show ?thesis by (simp add: main_loop_append del: main_loop.simps)
  qed
  then have "main_lines ex (xs @ m # rest) = main_lines ex xs"
    by (simp add: main_lines_output split: sum.splits)
  with loop show ?thesis by blast
qed

theorem unterminated_declaration_dropped_witness:
  "main_lines [] [''LIBBPF_API int bpf_f(int x);'', ''LIBBPF_API int bpf_g(int y,'', ''  int z)''] =
   main_lines [] [''LIBBPF_API int bpf_f(int x);'']"
proof -
  have m: "find_str ''LIBBPF_API int bpf_g(int y,'' ''LIBBPF_API'' \<noteq> - 1" by code_simp
  have t: "\<forall>l\<in>set [''LIBBPF_API int bpf_g(int y,'', ''  int z)'']. find_str l '';'' = - 1"
    by code_simp
  from unterminated_declaration_dropped [OF m t, of "[]" "[''LIBBPF_API int bpf_f(int x);'']"]
  show ?thesis by simp
qed

section \<open>The output\<close>

text \<open>The list \<open>defs\<close> follows the header: when the loop has built \<open>defs st1\<close> from the
  lines \<open>xs\<close> and goes on to build \<open>defs st2\<close> from the lines \<open>ys\<close> after them, the run
  prints for \<open>defs st1\<close> followed by \<open>defs st2\<close>.\<close>

lemma main_lines_two_parts:
  assumes "main_loop ex xs initial_state = Inr st1"
    and "main_loop ex ys (st1\<lparr>defs := []\<rparr>) = Inr st2"
  shows "main_lines ex (xs @ ys) =
           Inr (PREAMBLE @ ''\<newline>'' @ INIT @ ''\<newline>'' @
                printed declaration_text (defs st1 @ defs st2) @
                printed wrapper_text (defs st1 @ defs st2))"
proof -
  from assms(2) have "main_loop ex ys st1 = Inr (st2\<lparr>defs := defs st1 @ defs st2\<rparr>)"
    using main_loop_defs [of ex ys st1] by simp
  with assms(1) have "main_loop ex (xs @ ys) initial_state = Inr (st2\<lparr>defs := defs st1 @ defs st2\<rparr>)"
    by (simp add: main_loop_append)
  then show ?thesis by (simp add: main_lines_output)
qed








text \<open>Every header is such a sequence: the lines up to the first line that has the
  terminator after a marker are a declaration, and so on for the lines after it.\<close>

lemma after_marker_declaration:
  assumes "after_marker ls = pre @ t # post"
  shows "after_marker (takeWhile (\<lambda>l. find_str l ''LIBBPF_API'' = - 1) ls @ pre @ [t]) = pre @ [t]"
proof -
  let ?M = "\<lambda>l. find_str l ''LIBBPF_API'' = - 1"
  from assms have "after_marker ls \<noteq> []" by simp
  then have "\<not> ?M (hd (after_marker ls))"
    unfolding after_marker_def by (rule hd_dropWhile)
  with assms have "\<not> ?M (hd (pre @ [t]))" by (cases pre) simp_all
  then have "dropWhile ?M (pre @ [t]) = pre @ [t]" by (cases pre) simp_all
  moreover have "dropWhile ?M (takeWhile ?M ls @ pre @ [t]) = dropWhile ?M (pre @ [t])"
    by (rule dropWhile_append2) (auto dest: set_takeWhileD)
  ultimately show ?thesis by (simp add: after_marker_def)
qed

lemma header_decomposition:
  "\<exists>bs rest. ls = concat bs @ rest \<and> (\<forall>b\<in>set bs. declaration_lines b) \<and> unterminated_lines rest"
proof (induction ls rule: length_induct)
  case (1 ls)
  let ?M = "\<lambda>l. find_str l ''LIBBPF_API'' = - 1"
  show ?case
  proof (cases "\<exists>l\<in>set (after_marker ls). find_str l '';'' \<noteq> - 1")
    case False
    then have "ls = concat [] @ ls \<and> (\<forall>b\<in>set []. declaration_lines b) \<and> unterminated_lines ls"
      by (simp add: unterminated_lines_def)
    then show ?thesis by blast
  next
    case True
    then obtain pre t post where d: "after_marker ls = pre @ t # post"
      and t: "find_str t '';'' \<noteq> - 1" and pre: "\<forall>l\<in>set pre. find_str l '';'' = - 1"
      by (auto dest!: split_list_first_prop)
    define b where "b = takeWhile ?M ls @ pre @ [t]"
    have "ls = takeWhile ?M ls @ after_marker ls" by (simp add: after_marker_def)
    with d have ls: "ls = b @ post" by (simp add: b_def)
    from after_marker_declaration [OF d] t pre have b: "declaration_lines b"
      by (simp add: declaration_lines_def b_def)
    from ls have "length ls = length b + length post" by (metis length_append)
    then have "length post < length ls" by (simp add: b_def)
    with 1 obtain bs rest where "post = concat bs @ rest"
      and "\<forall>b\<in>set bs. declaration_lines b" and "unterminated_lines rest"
      by blast
    with ls b have "ls = concat (b # bs) @ rest \<and> (\<forall>b\<in>set (b # bs). declaration_lines b) \<and>
        unterminated_lines rest"
      by simp
    then show ?thesis by blast
  qed
qed







section \<open>A declaration that fails\<close>





section \<open>The constructor\<close>

text \<open>Positions, slices and pieces of a text that is given by its parts.\<close>

lemma find_from_first:
  "c \<notin> set pre \<Longrightarrow> find_from (pre @ c # rest) [c] i = int (i + length pre)"
  by (induction pre arbitrary: i) auto

lemma find_str_first: "c \<notin> set pre \<Longrightarrow> find_str (pre @ c # rest) [c] = int (length pre)"
  by (simp add: find_str_def find_from_first)

lemma find_str_no_char: "c \<notin> set s \<Longrightarrow> find_str s [c] = - 1"
  unfolding find_absent_iff by (auto simp add: sublist_def)

lemma slice_nat: "slice s (int a) (int b) = take (b - a) (drop a s)"
  by (simp add: slice_def slice_index_def Let_def min_def take_drop)

lemma slice_to_last: "slice s 0 (- 1) = butlast s"
proof -
  have "nat (max 0 (- 1 + int (length s))) = length s - 1" by simp
  then show ?thesis by (simp add: slice_def slice_index_def Let_def butlast_conv_take)
qed

lemma split_from_token:
  "\<forall>c\<in>set t. \<not> isspace c \<Longrightarrow> split_from (t @ rest) cur = split_from rest (cur @ t)"
  by (induction t arbitrary: cur) auto

lemma split_nonempty_iff: "split_from s cur \<noteq> [] \<longleftrightarrow> cur \<noteq> [] \<or> (\<exists>c\<in>set s. \<not> isspace c)"
  by (induction s arbitrary: cur) auto

lemma split_sep_no_sep: "sep \<notin> set xs \<Longrightarrow> split_sep xs sep = [xs]"
  by (induction xs) auto

lemma split_sep_not_Nil: "split_sep xs sep \<noteq> []"
  by (induction xs) (auto split: list.splits)

lemma split_sep_first:
  "sep \<notin> set xs \<Longrightarrow> split_sep (xs @ sep # ys) sep = xs # split_sep ys sep"
  by (induction xs) (auto split: list.splits)

lemma split_sep_chars:
  "piece \<in> set (split_sep xs sep) \<Longrightarrow> x \<in> set piece \<Longrightarrow> x \<in> set xs"
proof (induction xs arbitrary: piece)
  case Nil
  then show ?case by simp
next
  case (Cons c cs)
  show ?case
  proof (cases "c = sep")
    case True
    with Cons show ?thesis by auto
  next
    case False
    obtain p ps where ps: "split_sep cs sep = p # ps"
      using split_sep_not_Nil [of cs sep] by (cases "split_sep cs sep") auto
    with False Cons.prems have "piece = c # p \<or> piece \<in> set ps" by simp
    then show ?thesis
    proof
      assume "piece = c # p"
      with Cons.prems(2) have "x = c \<or> x \<in> set p" by simp
      with Cons.IH [of p] ps show ?thesis by auto
    next
      assume "piece \<in> set ps"
      with Cons.IH [of piece] ps Cons.prems(2) show ?thesis by simp
    qed
  qed
qed

lemma res_loop_eq:
  "res_loop pieces =
     (if \<forall>piece\<in>set pieces. split piece \<noteq> []
      then Inr (map (\<lambda>piece. lstrip (last (split piece)) ''*'') pieces)
      else Inl IndexError)"
  by (induction pieces) (auto simp add: last_item_def)

text \<open>
  Claim C2, as the claim states it: a text without parentheses, from which an object is
  constructed all the same, its name \<^verbatim>\<open>x;\<close> and its parameter list the whole text.
\<close>

theorem init_without_parentheses_counterexample:
  "CHR ''('' \<notin> set ''LIBBPF_API int x;\<newline>'' \<and> CHR '')'' \<notin> set ''LIBBPF_API int x;\<newline>'' \<and>
   init ''LIBBPF_API int x;\<newline>'' =
     Inr \<lparr>func_def = ''LIBBPF_API int x;\<newline>'', func_name = ''x;'', func_return = ''int'',
          func_args = ''LIBBPF_API int x;'', processed_args = ''x;''\<rparr>"
  by code_simp

text \<open>
  Claim C2, amended. The constructor does not look at whether the parentheses were found.
  For a text with neither of them both positions are \<open>-1\<close>, and the text without its last
  character is taken as the text before the parameter list and as the parameter list as
  well. The object is constructed whenever each piece of that text between commas has a
  token, and its fields are as below; otherwise the constructor raises \<^verbatim>\<open>IndexError\<close>.
\<close>

theorem init_without_parentheses:
  assumes "CHR ''('' \<notin> set fd" and "CHR '')'' \<notin> set fd"
  shows "init fd =
     (if \<forall>piece\<in>set (split_sep (butlast fd) CHR '',''). split piece \<noteq> []
      then Inr \<lparr>func_def = fd, func_name = last (split (butlast fd)),
               func_return = join '' '' (slice (split (butlast fd)) 1 (- 1)),
               func_args = butlast fd,
               processed_args =
                 join '', '' (map (\<lambda>piece. lstrip (last (split piece)) ''*'')
                                (split_sep (butlast fd) CHR '',''))\<rparr>
      else Inl IndexError)"
proof -
  let ?body = "butlast fd"
  let ?pieces = "split_sep ?body CHR '',''"
  from assms have l: "find_str fd ''('' = - 1" and r: "find_str fd '')'' = - 1"
    by (simp_all add: find_str_no_char)
  have tokens: "split ?body \<noteq> []" if all: "\<forall>piece\<in>set ?pieces. split piece \<noteq> []"
  proof -
    obtain p where p: "p \<in> set ?pieces"
      using split_sep_not_Nil [of ?body "CHR '',''"] by (cases ?pieces) auto
    with all have "split p \<noteq> []" by blast
    then obtain c where "c \<in> set p" and "\<not> isspace c"
      by (auto simp add: split_def split_nonempty_iff)
    with p have "c \<in> set ?body" by (auto dest: split_sep_chars)
    with \<open>\<not> isspace c\<close> show ?thesis by (auto simp add: split_def split_nonempty_iff)
  qed
  show ?thesis
  proof (cases "\<forall>piece\<in>set ?pieces. split piece \<noteq> []")
    case True
    with tokens l r show ?thesis
      by (simp add: init_def Let_def slice_to_last last_item_def res_loop_eq)
  next
    case False
    with l r show ?thesis
      by (auto simp add: init_def Let_def slice_to_last last_item_def res_loop_eq)
  qed
qed

text \<open>The theorem at three texts: two from which an object is constructed, and one whose
  last piece has no token.\<close>

theorem init_without_parentheses_witness:
  "init ''LIBBPF_API extern int a, b;\<newline>'' =
     Inr \<lparr>func_def = ''LIBBPF_API extern int a, b;\<newline>'', func_name = ''b;'',
          func_return = ''extern int a,'', func_args = ''LIBBPF_API extern int a, b;'',
          processed_args = ''a, b;''\<rparr> \<and>
   init ''LIBBPF_API int a,;\<newline>'' = Inr \<lparr>func_def = ''LIBBPF_API int a,;\<newline>'', func_name = ''a,;'',
          func_return = ''int'', func_args = ''LIBBPF_API int a,;'',
          processed_args = ''a, ;''\<rparr> \<and>
   init ''LIBBPF_API int a, \<newline>'' = Inl IndexError"
proof -
  have 1: "CHR ''('' \<notin> set ''LIBBPF_API extern int a, b;\<newline>''"
    "CHR '')'' \<notin> set ''LIBBPF_API extern int a, b;\<newline>''"
    by simp_all
  have 2: "CHR ''('' \<notin> set ''LIBBPF_API int a,;\<newline>''"
    "CHR '')'' \<notin> set ''LIBBPF_API int a,;\<newline>''"
    by simp_all
  have 3: "CHR ''('' \<notin> set ''LIBBPF_API int a, \<newline>''"
    "CHR '')'' \<notin> set ''LIBBPF_API int a, \<newline>''"
    by simp_all
  show ?thesis
    unfolding init_without_parentheses [OF 1] init_without_parentheses [OF 2]
      init_without_parentheses [OF 3]
    by code_simp
qed

lemma plain_tokenD:
  assumes "plain_token t"
  shows "t \<noteq> []" and "\<forall>c\<in>set t. \<not> isspace c" and "CHR ''('' \<notin> set t" and "CHR '')'' \<notin> set t"
    and "CHR '','' \<notin> set t"
  using assms by (auto simp add: plain_token_def)

lemma slice_before: "slice (pre @ rest) 0 (int (length pre)) = pre"
  using slice_nat [of "pre @ rest" 0 "length pre"] by simp

lemma slice_between:
  "slice (pre @ c # mid @ rest) (int (length pre) + 1) (int (length pre + 1 + length mid)) = mid"
  by (simp add: slice_def slice_index_def Let_def nat_add_distrib)

lemma split_from_end:
  "\<forall>c\<in>set t. \<not> isspace c \<Longrightarrow> split_from t cur = (if cur @ t = [] then [] else [cur @ t])"
  by (induction t arbitrary: cur) auto

lemma split_two:
  assumes "plain_token x" and "plain_token y"
  shows "split (x @ '' '' @ y) = [x, y]"
proof -
  have sp: "isspace CHR '' ''" by (simp add: isspace_def)
  from assms show ?thesis
    by (simp add: split_def split_from_token [of x] split_from_end [of y] sp plain_tokenD)
qed

lemma split_three:
  assumes "plain_token x" and "plain_token y" and "plain_token z"
  shows "split (x @ '' '' @ y @ '' '' @ z) = [x, y, z]"
proof -
  have sp: "isspace CHR '' ''" by (simp add: isspace_def)
  from assms show ?thesis
    by (simp add: split_def split_from_token [of x] split_from_token [of y]
        split_from_end [of z] sp plain_tokenD)
qed

lemma split_pointer:
  assumes "plain_token x" and "plain_token y"
  shows "split ('' '' @ x @ '' *'' @ y) = [x, CHR ''*'' # y]"
proof -
  have sp: "isspace CHR '' ''" and star: "\<not> isspace CHR ''*''" by (simp_all add: isspace_def)
  from assms star have "\<forall>c\<in>set (CHR ''*'' # y). \<not> isspace c" by (simp add: plain_tokenD)
  from split_from_end [OF this, of "[]"] assms show ?thesis
    by (simp add: split_def split_from_token [of x] sp plain_tokenD)
qed

lemma lstrip_plain: "t \<noteq> [] \<Longrightarrow> hd t \<noteq> CHR ''*'' \<Longrightarrow> lstrip t ''*'' = t"
  by (cases t) (simp_all add: lstrip_def)

lemma lstrip_star: "t \<noteq> [] \<Longrightarrow> hd t \<noteq> CHR ''*'' \<Longrightarrow> lstrip (CHR ''*'' # t) ''*'' = t"
  by (cases t) (simp_all add: lstrip_def)

text \<open>
  Claim C3. A declaration with nothing between its parentheses: \<^verbatim>\<open>"".split(",")\<close> is the
  list of one empty piece, the piece has no token, and taking its last token raises
  \<^verbatim>\<open>IndexError\<close>. No object is constructed.
\<close>

theorem init_empty_parameter_list_raises:
  "init ''LIBBPF_API int bpf_f();\<newline>'' = Inl IndexError"
  by code_simp

text \<open>The same for every text whose first parentheses have nothing between them.\<close>

lemma init_nothing_between_parentheses:
  assumes "CHR ''('' \<notin> set pre" and "CHR '')'' \<notin> set pre"
  shows "init (pre @ ''()'' @ rest) = Inl IndexError"
proof -
  define fd where "fd = pre @ CHR ''('' # [] @ CHR '')'' # rest"
  have left: "find_str fd ''('' = int (length pre)"
    unfolding fd_def by (rule find_str_first [OF assms(1)])
  from assms have "CHR '')'' \<notin> set (pre @ ''('')" by simp
  from find_str_first [OF this, of rest]
  have right: "find_str fd '')'' = int (length pre + 1 + length ([] :: string))"
    by (simp add: fd_def)
  have "slice fd (find_str fd ''('' + 1) (find_str fd '')'') = []"
    unfolding left right unfolding fd_def by (rule slice_between)
  then have "init fd = Inl IndexError"
    by (simp add: init_def Let_def last_item_def split_def)
  then show ?thesis by (simp add: fd_def)
qed

text \<open>
  Claim C5. For a text \<^verbatim>\<open>M R N(T1 a, T2 *b)\<close> and whatever follows the parenthesis, where
  \<open>M\<close>, \<open>R\<close>, \<open>N\<close>, \<open>T1\<close>, \<open>a\<close>, \<open>T2\<close> and \<open>b\<close> are tokens and neither \<open>a\<close> nor \<open>b\<close> begins
  with a star, the constructor gives the name \<open>N\<close>, the return type \<open>R\<close>, the parameter
  list as written, and the list \<^verbatim>\<open>res\<close> of the two names \<open>a\<close> and \<open>b\<close>, the star before \<open>b\<close>
  stripped; \<^verbatim>\<open>processed_args\<close> joins the two with a comma and a space.
\<close>

theorem init_two_parameters:
  assumes "plain_token M" and "plain_token R" and "plain_token N"
    and "plain_token T1" and "plain_token a" and "hd a \<noteq> CHR ''*''"
    and "plain_token T2" and "plain_token b" and "hd b \<noteq> CHR ''*''"
  shows "init (M @ '' '' @ R @ '' '' @ N @ ''('' @ T1 @ '' '' @ a @ '', '' @ T2 @ '' *'' @ b @ '')'' @ rest) =
           Inr \<lparr>func_def = M @ '' '' @ R @ '' '' @ N @ ''('' @ T1 @ '' '' @ a @ '', '' @ T2 @ '' *'' @ b @ '')'' @ rest,
                func_name = N, func_return = R,
                func_args = T1 @ '' '' @ a @ '', '' @ T2 @ '' *'' @ b,
                processed_args = a @ '', '' @ b\<rparr> \<and>
         res_loop (split_sep (T1 @ '' '' @ a @ '', '' @ T2 @ '' *'' @ b) CHR '','') = Inr [a, b]"
proof -
  define head where "head = M @ '' '' @ R @ '' '' @ N"
  define p1 where "p1 = T1 @ '' '' @ a"
  define p2 where "p2 = '' '' @ T2 @ '' *'' @ b"
  define args where "args = p1 @ CHR '','' # p2"
  define fd where "fd = head @ CHR ''('' # args @ CHR '')'' # rest"
  from assms have no_open: "CHR ''('' \<notin> set head"
    and no_comma: "CHR '','' \<notin> set p1" "CHR '','' \<notin> set p2"
    and no_close: "CHR '')'' \<notin> set (head @ CHR ''('' # args)"
    by (simp_all add: head_def args_def p1_def p2_def plain_tokenD)
  have left: "find_str fd ''('' = int (length head)"
    unfolding fd_def by (rule find_str_first [OF no_open])
  have "find_str ((head @ CHR ''('' # args) @ CHR '')'' # rest) '')'' =
      int (length (head @ CHR ''('' # args))"
    by (rule find_str_first [OF no_close])
  then have right: "find_str fd '')'' = int (length head + 1 + length args)"
    by (simp add: fd_def)
  have before: "slice fd 0 (find_str fd ''('') = head"
    unfolding left unfolding fd_def by (rule slice_before)
  have between: "slice fd (find_str fd ''('' + 1) (find_str fd '')'') = args"
    unfolding left right unfolding fd_def by (rule slice_between)
  have tokens: "split head = [M, R, N]"
    unfolding head_def by (rule split_three [OF assms(1) assms(2) assms(3)])
  have ret: "join '' '' (slice [M, R, N] 1 (- 1)) = R"
    by (simp add: slice_def slice_index_def)
  have pieces: "split_sep args CHR '','' = [p1, p2]"
    unfolding args_def by (simp add: split_sep_first no_comma split_sep_no_sep)
  have s1: "split p1 = [T1, a]"
    unfolding p1_def by (rule split_two [OF assms(4) assms(5)])
  have s2: "split p2 = [T2, CHR ''*'' # b]"
    unfolding p2_def by (rule split_pointer [OF assms(7) assms(8)])
  from assms have strip: "lstrip a ''*'' = a" "lstrip (CHR ''*'' # b) ''*'' = b"
    by (simp_all add: lstrip_plain lstrip_star plain_tokenD)
  have res: "res_loop (split_sep args CHR '','') = Inr [a, b]"
    by (simp add: pieces s1 s2 strip last_item_def)
  have "init fd = Inr \<lparr>func_def = fd, func_name = N, func_return = R, func_args = args,
      processed_args = a @ '', '' @ b\<rparr>"
    by (simp add: init_def Let_def before between tokens ret res last_item_def)
  with res show ?thesis by (simp add: fd_def args_def head_def p1_def p2_def)
qed

theorem init_two_parameters_witness:
  "init ''LIBBPF_API int bpf_prog_attach(int prog_fd, char *name);\<newline>'' =
     Inr \<lparr>func_def = ''LIBBPF_API int bpf_prog_attach(int prog_fd, char *name);\<newline>'',
          func_name = ''bpf_prog_attach'', func_return = ''int'',
          func_args = ''int prog_fd, char *name'',
          processed_args = ''prog_fd, name''\<rparr> \<and>
   res_loop (split_sep ''int prog_fd, char *name'' CHR '','') = Inr [''prog_fd'', ''name'']"
proof -
  have t: "plain_token ''LIBBPF_API''" "plain_token ''int''" "plain_token ''bpf_prog_attach''"
    "plain_token ''prog_fd''" "plain_token ''char''" "plain_token ''name''"
    by code_simp+
  have h: "hd ''prog_fd'' \<noteq> CHR ''*''" "hd ''name'' \<noteq> CHR ''*''" by simp_all
  from init_two_parameters [OF t(1) t(2) t(3) t(2) t(4) h(1) t(5) t(6) h(2), of "'';\<newline>''"]
  show ?thesis by simp
qed

end
